theory Spec2Isabelle
  imports Main "HOL-Library.AList"
begin

section \<open>Data model\<close>

text \<open>
  The program works on a pandas DataFrame read from a CSV file. A cell of the table is a
  string, a number, or the missing value that \<^verbatim>\<open>read_csv\<close> produces for an empty field
  (a float NaN). A row maps column names to cells, in column order; a frame is the list of
  its rows in positional order (\<^verbatim>\<open>iloc\<close> order). The index labels are not modelled: every
  access of the program is positional, and the final frame gets a fresh index
  (\<^verbatim>\<open>reset_index(drop=True)\<close>). All rows of a frame carry the same columns.

  What \<^verbatim>\<open>row.text\<close> evaluates to depends on the frame as a whole. When some column of the
  frame holds strings, \<^verbatim>\<open>iterrows\<close> yields rows of Python objects: a \<^verbatim>\<open>str\<close> (\<open>Str\<close>), an
  \<^verbatim>\<open>int\<close> (\<open>Num\<close>) or the \<^verbatim>\<open>float\<close> NaN (\<open>NaN\<close>). When every column is numeric (so also
  the column \<open>text\<close>, all of whose fields are then numbers or empty), it yields rows of
  numpy scalars: a number (\<open>Np_num\<close>) or numpy's NaN (\<open>Np_nan\<close>). A cell records which of
  these the loop sees; the numpy cells occur only in frames without any string.
\<close>

datatype cell = Str string | Num int | NaN | Np_num int | Np_nan

type_synonym row = "(string \<times> cell) list"

type_synonym dataframe = "row list"

text \<open>The exceptions that can leave the functions of the module.\<close>

datatype py_error = ZeroDivisionError | IndexError | TypeError | AttributeError | ValueError

text \<open>
  The translation provider (\<^verbatim>\<open>GoogleTranslator(source='auto', target=lang).translate(text)\<close>)
  is an external collaborator and a parameter of the model: it either returns the translated
  string (\<open>Inr\<close>) or raises an exception, given by its message (\<open>Inl\<close>).
\<close>

type_synonym provider = "cell \<Rightarrow> string \<Rightarrow> string + string"

text \<open>
  The observable effects of a run, in the order in which they happen: calls of the provider,
  records handed to \<^verbatim>\<open>logging\<close>, directories made, tasks submitted to the pool and files
  written.
\<close>

datatype event =
    Provider_call cell string
  | Log_error string
  | Log_info string
  | Makedirs string
  | Apply_async string
  | To_csv string dataframe

section \<open>Library functions used by the program\<close>

text \<open>Decimal rendering of a natural number, as an f-string does it.\<close>

fun str_nat :: "nat \<Rightarrow> string" where
  "str_nat n =
     (if n < 10 then [''0123456789'' ! n]
      else str_nat (n div 10) @ [''0123456789'' ! (n mod 10)])"

declare str_nat.simps [simp del]

text \<open>\<^verbatim>\<open>os.path.join(a, b)\<close> on a POSIX system.\<close>

definition path_join :: "string \<Rightarrow> string \<Rightarrow> string" where
  "path_join a b =
     (if b \<noteq> [] \<and> hd b = CHR ''/'' then b
      else if a = [] \<or> last a = CHR ''/'' then a @ b
      else a @ ''/'' @ b)"

text \<open>
  Python's slice \<^verbatim>\<open>xs[a:b]\<close>, which is what \<^verbatim>\<open>df.iloc[a:b]\<close> selects: a negative bound
  counts from the end, and both bounds are clipped to the length.
\<close>

definition slice_bound :: "nat \<Rightarrow> int \<Rightarrow> nat" where
  "slice_bound len a = (if a < 0 then nat (max (a + int len) 0) else min (nat a) len)"

definition iloc :: "'a list \<Rightarrow> int \<Rightarrow> int \<Rightarrow> 'a list" where
  "iloc df a b = take (slice_bound (length df) b - slice_bound (length df) a)
                   (drop (slice_bound (length df) a) df)"

text \<open>\<^verbatim>\<open>df.iloc[a:]\<close>.\<close>

definition iloc_from :: "'a list \<Rightarrow> int \<Rightarrow> 'a list" where
  "iloc_from df a = drop (slice_bound (length df) a) df"

text \<open>\<^verbatim>\<open>range(n)\<close>: empty when \<open>n \<le> 0\<close>.\<close>

definition py_range :: "int \<Rightarrow> int list" where
  "py_range n = map int [0..<nat n]"

text \<open>
  \<^verbatim>\<open>pd.concat(frames)\<close> of frames with the same columns: the rows of the frames, one frame
  after the other. It raises \<^verbatim>\<open>ValueError\<close> when there is no frame to concatenate.
\<close>

definition pd_concat :: "dataframe list \<Rightarrow> py_error + dataframe" where
  "pd_concat frames = (if frames = [] then Inl ValueError else Inr (concat frames))"

text \<open>
  \<^verbatim>\<open>df[name] = values\<close>: the values must be as many as the rows (\<^verbatim>\<open>ValueError\<close> otherwise);
  an existing column of that name gets the new values in place, a new column is appended
  after the others.
\<close>

definition set_column :: "string \<Rightarrow> cell list \<Rightarrow> dataframe \<Rightarrow> py_error + dataframe" where
  "set_column name vals df =
     (if length vals \<noteq> length df then Inl ValueError
      else Inr (map (\<lambda>(r, v). AList.update name v r) (zip df vals)))"

section \<open>The program\<close>

subsection \<open>\<^verbatim>\<open>translate_text\<close>\<close>

text \<open>
  The expression \<^verbatim>\<open>text[:30]\<close>: the first 30 characters of a string; \<^verbatim>\<open>TypeError\<close> ("object
  is not subscriptable") on a Python \<^verbatim>\<open>int\<close> or \<^verbatim>\<open>float\<close>; \<^verbatim>\<open>IndexError\<close> ("invalid index
  to scalar variable") on a numpy scalar.
\<close>

definition slice30 :: "cell \<Rightarrow> py_error + string" where
  "slice30 text =
     (case text of
        Str s \<Rightarrow> Inr (take 30 s)
      | Num i \<Rightarrow> Inl TypeError
      | NaN \<Rightarrow> Inl TypeError
      | Np_num i \<Rightarrow> Inl IndexError
      | Np_nan \<Rightarrow> Inl IndexError)"

text \<open>
  The provider is called inside \<^verbatim>\<open>try\<close>. The handler of \<^verbatim>\<open>except Exception\<close> first formats
  the log record, which evaluates \<^verbatim>\<open>text[:30]\<close>. When that raises, the exception is raised
  inside the handler and so leaves the function: nothing is logged and no sentinel is
  returned. Only after logging does the handler return the sentinel.
\<close>

definition translate_text :: "provider \<Rightarrow> cell \<Rightarrow> string \<Rightarrow> event list \<times> (py_error + string)" where
  "translate_text translate text target_language =
     (case translate text target_language of
        Inr translated \<Rightarrow> ([Provider_call text target_language], Inr translated)
      | Inl e \<Rightarrow>
          (case slice30 text of
             Inr prefix \<Rightarrow>
               ([Provider_call text target_language,
                 Log_error (''Translation failed for text: '' @ prefix @ ''... | Error: '' @ e)],
                Inr ''no translation'')
           | Inl err \<Rightarrow> ([Provider_call text target_language], Inl err)))"

subsection \<open>\<^verbatim>\<open>translate_dataframe_segment\<close>\<close>

definition checkpoint_interval :: nat where
  "checkpoint_interval = 5"

definition progress_message :: "string \<Rightarrow> nat \<Rightarrow> string" where
  "progress_message thread_name counter =
     thread_name @ '': Translated '' @ str_nat counter @ '' tweets''"

text \<open>
  The \<^verbatim>\<open>for\<close> loop over \<^verbatim>\<open>df_segment.iterrows()\<close>, with the loop's variables
  \<^verbatim>\<open>translated_texts\<close> and \<^verbatim>\<open>counter\<close> as arguments. \<^verbatim>\<open>row.text\<close> raises
  \<^verbatim>\<open>AttributeError\<close> when the frame has no column \<^verbatim>\<open>text\<close>. An exception ends the loop
  (and the function); the events up to it have happened.
\<close>

fun segment_loop ::
  "provider \<Rightarrow> string \<Rightarrow> string \<Rightarrow> row list \<Rightarrow> string list \<Rightarrow> nat
     \<Rightarrow> event list \<times> (py_error + string list)" where
  "segment_loop translate thread_name target_language [] translated_texts counter =
     ([], Inr translated_texts)"
| "segment_loop translate thread_name target_language (row # rows) translated_texts counter =
     (case map_of row ''text'' of
        None \<Rightarrow> ([], Inl AttributeError)
      | Some text \<Rightarrow>
          (case translate_text translate text target_language of
             (es, Inl err) \<Rightarrow> (es, Inl err)
           | (es, Inr translated) \<Rightarrow>
               (let translated_texts' = translated_texts @ [translated];
                    counter' = counter + 1;
                    logged = (if counter' mod checkpoint_interval = 0
                              then [Log_info (progress_message thread_name counter')] else []);
                    (es', res) = segment_loop translate thread_name target_language rows
                                   translated_texts' counter'
                in (es @ logged @ es', res))))"

definition translate_dataframe_segment ::
  "provider \<Rightarrow> dataframe \<Rightarrow> string \<Rightarrow> string \<Rightarrow> string \<Rightarrow> event list \<times> (py_error + dataframe)" where
  "translate_dataframe_segment translate df_segment thread_name save_path target_language =
     (case segment_loop translate thread_name target_language df_segment [] 0 of
        (es, Inl err) \<Rightarrow> (es, Inl err)
      | (es, Inr translated_texts) \<Rightarrow>
          (es, set_column ''text_translated'' (map Str translated_texts) df_segment))"

subsection \<open>\<^verbatim>\<open>translate_dataframe\<close>\<close>

text \<open>
  Lines 48 to 52: the split into chunks. \<^verbatim>\<open>len(df) // num_threads\<close> raises
  \<^verbatim>\<open>ZeroDivisionError\<close> for \<open>num_threads = 0\<close>; for a negative \<open>num_threads\<close> the list of
  chunks is empty and \<^verbatim>\<open>df_chunks[-1]\<close> raises \<^verbatim>\<open>IndexError\<close>. Python's \<^verbatim>\<open>//\<close> rounds
  down, as \<open>div\<close> on \<open>int\<close> does.
\<close>

definition df_chunks :: "dataframe \<Rightarrow> int \<Rightarrow> py_error + dataframe list" where
  "df_chunks df num_threads =
     (if num_threads = 0 then Inl ZeroDivisionError
      else
        (let chunk_size = int (length df) div num_threads;
             chunks = map (\<lambda>i. iloc df (i * chunk_size) ((i + 1) * chunk_size)) (py_range num_threads)
         in if chunks = [] then Inl IndexError
            else Inr (chunks[length chunks - 1 :=
                        last chunks @ iloc_from df (num_threads * chunk_size)])))"

text \<open>
  The results of the pool's tasks are read in the order of submission
  (\<^verbatim>\<open>[res.get() for res in results]\<close>); \<^verbatim>\<open>get\<close> raises again the exception that ended its
  task, so the first failed task in index order decides the error.
\<close>

fun get_results :: "(py_error + dataframe) list \<Rightarrow> py_error + dataframe list" where
  "get_results [] = Inr []"
| "get_results (Inl err # rest) = Inl err"
| "get_results (Inr d # rest) =
     (case get_results rest of Inl err \<Rightarrow> Inl err | Inr ds \<Rightarrow> Inr (d # ds))"

text \<open>
  The whole run. The tasks run concurrently and share nothing but the logger, so the results
  do not depend on the schedule; the model lists the events of the tasks one task after the
  other, in index order, each after its submission. \<^verbatim>\<open>pool.join()\<close> waits for every task,
  so the events of all tasks have happened before the first result is read. The file
  system is taken to accept every \<^verbatim>\<open>makedirs\<close> and \<^verbatim>\<open>to_csv\<close>.
\<close>

definition translate_dataframe ::
  "provider \<Rightarrow> dataframe \<Rightarrow> int \<Rightarrow> string \<Rightarrow> string \<Rightarrow> event list \<times> (py_error + dataframe)" where
  "translate_dataframe translate df num_threads parent_dir target_language =
     (let save_dir = path_join parent_dir ''dfs_translated'';
          es0 = [Log_info ''Starting translation process...'', Makedirs save_dir]
      in case df_chunks df num_threads of
           Inl err \<Rightarrow> (es0, Inl err)
         | Inr chunks \<Rightarrow>
             (let thread_names = map (\<lambda>i. ''Thread_'' @ str_nat (nat (i + 1))) (py_range num_threads);
                  save_paths = map (\<lambda>i. path_join save_dir
                                 (''sub_dfs_translated_'' @ str_nat (nat (i + 1)))) (py_range num_threads);
                  es1 = map Makedirs save_paths;
                  tasks = map (\<lambda>i. translate_dataframe_segment translate (chunks ! nat i)
                                 (thread_names ! nat i) (save_paths ! nat i) target_language)
                            (py_range num_threads);
                  es2 = concat (map (\<lambda>i. Apply_async (thread_names ! nat i) # fst (tasks ! nat i))
                                  (py_range num_threads))
              in case get_results (map snd tasks) of
                   Inl err \<Rightarrow> (es0 @ es1 @ es2, Inl err)
                 | Inr translated_dfs \<Rightarrow>
                     (case pd_concat translated_dfs of
                        Inl err \<Rightarrow> (es0 @ es1 @ es2, Inl err)
                      | Inr translated_df \<Rightarrow>
                          (let output_file = path_join parent_dir ''df_translated.csv''
                           in (es0 @ es1 @ es2 @
                                 [To_csv output_file translated_df,
                                  Log_info (''Translation completed. File saved at '' @ output_file)],
                               Inr translated_df)))))"

section \<open>A provider for the examples\<close>

text \<open>
  A deterministic provider used at the concrete inputs below: it rejects what is not a
  string and the empty string, and otherwise answers with the text tagged by the language.
\<close>

definition demo_provider :: provider where
  "demo_provider text target_language =
     (case text of
        Str s \<Rightarrow> (if s = [] then Inl ''NotValidPayload'' else Inr (target_language @ '':'' @ s))
      | _ \<Rightarrow> Inl ''NotValidPayload'')"

definition tweet :: "nat \<Rightarrow> string \<Rightarrow> row" where
  "tweet i s = [(''id'', Num (int i)), (''text'', Str s)]"

section \<open>Reference definitions for the proofs\<close>

text \<open>
  What the loop body yields for one row: \<^verbatim>\<open>row.text\<close> (or \<^verbatim>\<open>AttributeError\<close>), then the
  result of \<^verbatim>\<open>translate_text\<close> on it.
\<close>

definition row_result :: "provider \<Rightarrow> string \<Rightarrow> row \<Rightarrow> py_error + string" where
  "row_result translate target_language row =
     (case map_of row ''text'' of
        None \<Rightarrow> Inl AttributeError
      | Some text \<Rightarrow> snd (translate_text translate text target_language))"

definition add_translation :: "row \<Rightarrow> string \<Rightarrow> row" where
  "add_translation row translated = AList.update ''text_translated'' (Str translated) row"

text \<open>
  The plain translation of a list of rows, one after the other, stopping at the first
  exception. It mentions no chunk, thread, counter or log; the program is compared with it.
\<close>

fun translate_rows :: "provider \<Rightarrow> string \<Rightarrow> row list \<Rightarrow> py_error + row list" where
  "translate_rows translate target_language [] = Inr []"
| "translate_rows translate target_language (row # rows) =
     (case row_result translate target_language row of
        Inl err \<Rightarrow> Inl err
      | Inr translated \<Rightarrow>
          (case translate_rows translate target_language rows of
             Inl err \<Rightarrow> Inl err
           | Inr out \<Rightarrow> Inr (add_translation row translated # out)))"

text \<open>The list \<^verbatim>\<open>translated_texts\<close> that the loop has built when it ends.\<close>

fun translated_texts :: "provider \<Rightarrow> string \<Rightarrow> row list \<Rightarrow> py_error + string list" where
  "translated_texts translate target_language [] = Inr []"
| "translated_texts translate target_language (row # rows) =
     (case row_result translate target_language row of
        Inl err \<Rightarrow> Inl err
      | Inr translated \<Rightarrow>
          (case translated_texts translate target_language rows of
             Inl err \<Rightarrow> Inl err
           | Inr ts \<Rightarrow> Inr (translated # ts)))"

text \<open>The chunks of lines 48 to 52 in closed form, for \<open>m \<ge> 1\<close> threads.\<close>

definition chunks_of :: "'a list \<Rightarrow> nat \<Rightarrow> 'a list list" where
  "chunks_of df m =
     map (\<lambda>k. take (length df div m) (drop (k * (length df div m)) df)) [0..<m - 1]
       @ [drop ((m - 1) * (length df div m)) df]"

text \<open>
  The label and the directory of task \<open>k\<close>, and the events of a run with \<open>m \<ge> 1\<close> threads
  up to the point where the results are read.
\<close>

definition thread_name :: "nat \<Rightarrow> string" where
  "thread_name k = ''Thread_'' @ str_nat (k + 1)"

definition save_path :: "string \<Rightarrow> nat \<Rightarrow> string" where
  "save_path parent_dir k =
     path_join (path_join parent_dir ''dfs_translated'') (''sub_dfs_translated_'' @ str_nat (k + 1))"

definition run_events :: "provider \<Rightarrow> dataframe \<Rightarrow> nat \<Rightarrow> string \<Rightarrow> string \<Rightarrow> event list" where
  "run_events P df m parent_dir lang =
     [Log_info ''Starting translation process...'',
      Makedirs (path_join parent_dir ''dfs_translated'')]
     @ map (\<lambda>k. Makedirs (save_path parent_dir k)) [0..<m]
     @ concat (map (\<lambda>k. Apply_async (thread_name k) #
                 fst (translate_dataframe_segment P (chunks_of df m ! k) (thread_name k)
                        (save_path parent_dir k) lang)) [0..<m])"

text \<open>
  Valid input, in the words of the spec's data model: a Record "must expose at least a
  \<open>text: string\<close> field". A segment
  is valid input when each of its rows has a \<open>text\<close> field that holds a string.
\<close>

definition valid_segment :: "row list \<Rightarrow> bool" where
  "valid_segment seg =
     list_all (\<lambda>r. case map_of r ''text'' of Some (Str s) \<Rightarrow> True | _ \<Rightarrow> False) seg"

text \<open>Frames for the examples.\<close>

definition df3 :: dataframe where
  "df3 = [tweet 0 ''a'', tweet 1 ''b'', tweet 2 ''c'']"

definition df_nan :: dataframe where
  "df_nan = [tweet 0 ''a'', [(''id'', Num 1), (''text'', NaN)], tweet 2 ''c'']"

definition df_empty_text :: dataframe where
  "df_empty_text = [tweet 0 ''a'', tweet 1 [], tweet 2 ''c'']"

text \<open>Kinds of events.\<close>

fun is_provider_call :: "event \<Rightarrow> bool" where
  "is_provider_call (Provider_call tx lang) = True"
| "is_provider_call e = False"

fun is_apply_async :: "event \<Rightarrow> bool" where
  "is_apply_async (Apply_async name) = True"
| "is_apply_async e = False"

fun is_to_csv :: "event \<Rightarrow> bool" where
  "is_to_csv (To_csv file df) = True"
| "is_to_csv e = False"

fun is_log_info :: "event \<Rightarrow> bool" where
  "is_log_info (Log_info msg) = True"
| "is_log_info e = False"

definition row_ok :: "provider \<Rightarrow> string \<Rightarrow> row \<Rightarrow> bool" where
  "row_ok translate target_language row =
     (case row_result translate target_language row of Inr t \<Rightarrow> True | Inl err \<Rightarrow> False)"

text \<open>The number of rows of a segment that are processed before the first exception.\<close>

definition processed :: "provider \<Rightarrow> string \<Rightarrow> row list \<Rightarrow> nat" where
  "processed translate target_language seg = length (takeWhile (row_ok translate target_language) seg)"

text \<open>
  The notifications in the words of the spec: with checkpoint interval \<open>c\<close>, a worker
  that has processed \<open>k\<close>
  rows has notified after every \<open>c\<close>-th row, each time with the count of rows processed so
  far.
\<close>

definition expected_progress :: "nat \<Rightarrow> string \<Rightarrow> nat \<Rightarrow> event list" where
  "expected_progress c thread k =
     map (\<lambda>j. Log_info (progress_message thread j)) (filter (\<lambda>j. j mod c = 0) [1..<Suc k])"

text \<open>The provider call of a row and, where one is due, the notification that follows it.\<close>

definition row_steps :: "string \<Rightarrow> string \<Rightarrow> nat \<times> row \<Rightarrow> event list" where
  "row_steps thread target_language kr =
     (case map_of (snd kr) ''text'' of
        Some tx \<Rightarrow> [Provider_call tx target_language]
      | None \<Rightarrow> [])
     @ (if Suc (fst kr) mod 5 = 0 then [Log_info (progress_message thread (Suc (fst kr)))] else [])"

definition df11 :: dataframe where
  "df11 = map (\<lambda>i. tweet i ''x'') [0..<11]"

text \<open>
  The translated text of a row in the words of the spec: the provider's string when the
  provider returns, the sentinel when it fails.
\<close>

definition translation_of :: "provider \<Rightarrow> string \<Rightarrow> cell \<Rightarrow> string" where
  "translation_of translate target_language tx =
     (case translate tx target_language of Inr translated \<Rightarrow> translated | Inl e \<Rightarrow> ''no translation'')"

text \<open>
  Two more frames for the examples: one whose first row has an empty text field, and one
  that was translated before.
\<close>

definition df_nan_first :: dataframe where
  "df_nan_first = [[(''id'', Num 0), (''text'', NaN)], tweet 1 ''b'']"

definition df_translated_before :: dataframe where
  "df_translated_before = [[(''id'', Num 7), (''text'', Str ''hi''), (''text_translated'', Str ''old'')]]"

section \<open>Lemmas\<close>

lemma segment_loop_result:
  "snd (segment_loop P th lang rows acc c) =
     (case translated_texts P lang rows of Inl err \<Rightarrow> Inl err | Inr ts \<Rightarrow> Inr (acc @ ts))"
proof (induction rows arbitrary: acc c)
  case Nil
  show ?case by simp
next
  case (Cons r rows)
  show ?case
  proof (cases "map_of r ''text''")
    case None
    then show ?thesis by (simp add: row_result_def)
  next
    case (Some tx)
    obtain es res where tt: "translate_text P tx lang = (es, res)"
      by (cases "translate_text P tx lang")
    show ?thesis
    proof (cases res)
      case (Inl err)
      with Some tt show ?thesis by (simp add: row_result_def)
    next
      case (Inr t)
      with Some tt Cons.IH [of "acc @ [t]" "c + 1"] show ?thesis
        by (auto simp: row_result_def Let_def split: prod.splits sum.splits)
    qed
  qed
qed

lemma translated_texts_length:
  "translated_texts P lang rows = Inr ts \<Longrightarrow> length ts = length rows"
  by (induction rows arbitrary: ts) (auto split: sum.splits)

lemma translate_rows_texts:
  "translate_rows P lang rows =
     (case translated_texts P lang rows of
        Inl err \<Rightarrow> Inl err
      | Inr ts \<Rightarrow> Inr (map (\<lambda>(r, v). AList.update ''text_translated'' v r) (zip rows (map Str ts))))"
  by (induction rows) (auto simp: add_translation_def split: sum.splits)

lemma segment_result:
  "snd (translate_dataframe_segment P seg th sp lang) = translate_rows P lang seg"
proof (cases "translated_texts P lang seg")
  case (Inl err)
  then have "snd (segment_loop P th lang seg [] 0) = Inl err"
    by (simp add: segment_loop_result)
  with Inl show ?thesis
    by (auto simp: translate_dataframe_segment_def translate_rows_texts split: prod.splits sum.splits)
next
  case (Inr ts)
  then have "snd (segment_loop P th lang seg [] 0) = Inr ts"
    by (simp add: segment_loop_result)
  with Inr translated_texts_length [OF Inr] show ?thesis
    by (auto simp: translate_dataframe_segment_def translate_rows_texts set_column_def
        split: prod.splits sum.splits)
qed

lemma translate_rows_append:
  "translate_rows P lang (xs @ ys) =
     (case translate_rows P lang xs of
        Inl err \<Rightarrow> Inl err
      | Inr a \<Rightarrow> (case translate_rows P lang ys of Inl err \<Rightarrow> Inl err | Inr b \<Rightarrow> Inr (a @ b)))"
  by (induction xs) (auto split: sum.splits)

lemma get_results_length: "get_results rs = Inr ds \<Longrightarrow> length ds = length rs"
  by (induction rs arbitrary: ds rule: get_results.induct) (auto split: sum.splits)

lemma get_results_translate_rows:
  "(case get_results (map (translate_rows P lang) chunks) of
      Inl err \<Rightarrow> Inl err | Inr ds \<Rightarrow> Inr (concat ds)) = translate_rows P lang (concat chunks)"
proof (induction chunks)
  case Nil
  show ?case by simp
next
  case (Cons c chunks)
  show ?case
  proof (cases "translate_rows P lang c")
    case (Inl err)
    then show ?thesis by (simp add: translate_rows_append)
  next
    case (Inr a)
    with Cons.IH [symmetric] show ?thesis
      by (auto simp: translate_rows_append split: sum.splits)
  qed
qed

lemma translate_rows_nth:
  "translate_rows P lang rows = Inr out \<Longrightarrow>
     length out = length rows \<and>
     (\<forall>i<length rows. \<exists>t. row_result P lang (rows ! i) = Inr t \<and> out ! i = add_translation (rows ! i) t)"
proof (induction rows arbitrary: out)
  case Nil
  then show ?case by simp
next
  case (Cons r rows)
  from Cons.prems obtain t out' where
    t: "row_result P lang r = Inr t" and o: "translate_rows P lang rows = Inr out'"
    and out: "out = add_translation r t # out'"
    by (auto split: sum.splits)
  from Cons.IH [OF o] have len: "length out' = length rows"
    and nth: "\<forall>i<length rows. \<exists>t. row_result P lang (rows ! i) = Inr t \<and> out' ! i = add_translation (rows ! i) t"
    by simp_all
  show ?case
  proof (intro conjI allI impI)
    show "length out = length (r # rows)" using out len by simp
  next
    fix i assume "i < length (r # rows)"
    then show "\<exists>t. row_result P lang ((r # rows) ! i) = Inr t \<and> out ! i = add_translation ((r # rows) ! i) t"
      using t out nth by (cases i) auto
  qed
qed

lemma translate_rows_total:
  "(\<forall>r\<in>set rows. \<exists>t. row_result P lang r = Inr t) \<Longrightarrow> \<exists>out. translate_rows P lang rows = Inr out"
  by (induction rows) (auto split: sum.splits)

lemma slice_bound_nat: "a \<le> len \<Longrightarrow> slice_bound len (int a) = a"
  by (simp add: slice_bound_def)

lemma iloc_nat:
  "a \<le> b \<Longrightarrow> b \<le> length df \<Longrightarrow> iloc df (int a) (int b) = take (b - a) (drop a df)"
  by (simp add: iloc_def slice_bound_nat)

lemma iloc_from_nat: "a \<le> length df \<Longrightarrow> iloc_from df (int a) = drop a df"
  by (simp add: iloc_from_def slice_bound_nat)

lemma chunk_bound:
  assumes "k < m"
  shows "Suc k * (len div m) \<le> len"
proof -
  have "Suc k * (len div m) \<le> m * (len div m)"
    using assms by (intro mult_le_mono1) simp
  also have "\<dots> \<le> len" by simp
  finally show ?thesis .
qed

lemma chunk_iloc:
  assumes "k < m"
  shows "iloc df (int k * int (length df div m)) ((int k + 1) * int (length df div m))
           = take (length df div m) (drop (k * (length df div m)) df)"
proof -
  let ?s = "length df div m"
  have b: "Suc k * ?s \<le> length df" using assms by (rule chunk_bound)
  have a: "k * ?s \<le> Suc k * ?s" by simp
  have "iloc df (int (k * ?s)) (int (Suc k * ?s)) = take (Suc k * ?s - k * ?s) (drop (k * ?s) df)"
    using a b by (rule iloc_nat)
  moreover have "int (k * ?s) = int k * int ?s" by simp
  moreover have "int (Suc k * ?s) = (int k + 1) * int ?s" by (simp add: algebra_simps)
  moreover have "Suc k * ?s - k * ?s = ?s" by simp
  ultimately show ?thesis by simp
qed

lemma df_chunks_pos:
  assumes "1 \<le> n"
  shows "df_chunks df n = Inr (chunks_of df (nat n))"
proof -
  define m where "m = nat n"
  define s where "s = length df div m"
  define f where "f = (\<lambda>k. take s (drop (k * s) df))"
  have n: "n = int m" and m: "0 < m" using assms by (simp_all add: m_def)
  have cs: "int (length df) div n = int s" by (simp add: n s_def zdiv_int)
  have chunks: "map (\<lambda>i. iloc df (i * int s) ((i + 1) * int s)) (py_range n) = map f [0..<m]"
    unfolding py_range_def n by (simp add: f_def s_def chunk_iloc)
  have split: "[0..<m] = [0..<m - 1] @ [m - 1]"
    using m by (cases m) simp_all
  have mf: "map f [0..<m] = map f [0..<m - 1] @ [f (m - 1)]"
    by (subst split) simp
  have ms: "m * s \<le> length df" by (simp add: s_def)
  have "iloc_from df (n * int s) = drop (m * s) df"
    using iloc_from_nat [OF ms] by (simp add: n)
  moreover have "m * s = s + (m - 1) * s"
    using m by (cases m) simp_all
  then have "drop (m * s) df = drop s (drop ((m - 1) * s) df)"
    by (simp only: drop_drop)
  ultimately have "f (m - 1) @ iloc_from df (n * int s)
      = take s (drop ((m - 1) * s) df) @ drop s (drop ((m - 1) * s) df)"
    by (simp only: f_def)
  then have lastc: "f (m - 1) @ iloc_from df (n * int s) = drop ((m - 1) * s) df"
    by (simp only: append_take_drop_id)
  have upd: "(map f [0..<m])[length (map f [0..<m]) - 1 := last (map f [0..<m]) @ iloc_from df (n * int s)]
               = map f [0..<m - 1] @ [drop ((m - 1) * s) df]"
    unfolding mf using lastc by (simp add: list_update_append)
  have ne: "map f [0..<m] \<noteq> []" using m by simp
  have "df_chunks df n = Inr ((map f [0..<m])[length (map f [0..<m]) - 1 :=
           last (map f [0..<m]) @ iloc_from df (n * int s)])"
    using assms ne unfolding df_chunks_def Let_def cs chunks by simp
  then show ?thesis
    unfolding upd by (simp add: chunks_of_def f_def s_def m_def)
qed

lemma concat_take_chunks:
  "k * s \<le> length df \<Longrightarrow> concat (map (\<lambda>i. take s (drop (i * s) df)) [0..<k]) = take (k * s) df"
proof (induction k)
  case 0
  show ?case by simp
next
  case (Suc k)
  then have ih: "concat (map (\<lambda>i. take s (drop (i * s) df)) [0..<k]) = take (k * s) df"
    by simp
  have e: "Suc k * s = k * s + s" by simp
  have "take (Suc k * s) df = take (k * s) df @ take s (drop (k * s) df)"
    unfolding e by (rule take_add)
  with ih show ?case by simp
qed

lemma concat_chunks_of: "0 < m \<Longrightarrow> concat (chunks_of df m) = df"
proof -
  assume m: "0 < m"
  have "(m - 1) * (length df div m) \<le> length df"
    using chunk_bound [of "m - 1" m "length df"] m
    by (metis Suc_leD Suc_pred diff_less mult_Suc zero_less_one add_leD2)
  then show ?thesis
    by (simp add: chunks_of_def concat_take_chunks)
qed

lemma length_chunks_of: "0 < m \<Longrightarrow> length (chunks_of df m) = m"
  by (simp add: chunks_of_def)

lemma py_range_pos: "py_range (int m) = map int [0..<m]"
  by (simp add: py_range_def)

lemma translate_dataframe_pos:
  assumes "1 \<le> n"
  shows "translate_dataframe P df n dir lang =
     (case translate_rows P lang df of
        Inl err \<Rightarrow> (run_events P df (nat n) dir lang, Inl err)
      | Inr out \<Rightarrow>
          (run_events P df (nat n) dir lang @
             [To_csv (path_join dir ''df_translated.csv'') out,
              Log_info (''Translation completed. File saved at '' @ path_join dir ''df_translated.csv'')],
           Inr out))"
proof -
  define m where "m = nat n"
  define chunks where "chunks = chunks_of df m"
  have n: "n = int m" and m: "0 < m" using assms by (simp_all add: m_def)
  have len: "length chunks = m" using m by (simp add: chunks_def length_chunks_of)
  have cc: "concat chunks = df" using m by (simp add: chunks_def concat_chunks_of)
  define tasks where "tasks = map (\<lambda>k. translate_dataframe_segment P (chunks ! k) (thread_name k)
      (save_path dir k) lang) [0..<m]"
  have results: "map snd tasks = map (translate_rows P lang) chunks"
  proof -
    have "map snd tasks = map (\<lambda>k. translate_rows P lang (chunks ! k)) [0..<length chunks]"
      by (simp add: tasks_def segment_result len comp_def)
    also have "\<dots> = map (translate_rows P lang) (map (\<lambda>k. chunks ! k) [0..<length chunks])"
      by (simp add: comp_def)
    finally show ?thesis by (simp only: map_nth)
  qed
  have tasks_src: "map (\<lambda>i. translate_dataframe_segment P (chunks ! nat i)
        (map (\<lambda>i. ''Thread_'' @ str_nat (nat (i + 1))) (py_range n) ! nat i)
        (map (\<lambda>i. path_join (path_join dir ''dfs_translated'')
                 (''sub_dfs_translated_'' @ str_nat (nat (i + 1)))) (py_range n) ! nat i) lang)
      (py_range n) = tasks"
    unfolding n py_range_pos tasks_def
    by (simp add: thread_name_def save_path_def nat_add_distrib add.commute)
  have paths_src: "map Makedirs (map (\<lambda>i. path_join (path_join dir ''dfs_translated'')
                 (''sub_dfs_translated_'' @ str_nat (nat (i + 1)))) (py_range n))
      = map (\<lambda>k. Makedirs (save_path dir k)) [0..<m]"
    unfolding n py_range_pos
    by (simp add: save_path_def nat_add_distrib add.commute comp_def)
  have async_src: "concat (map (\<lambda>i. Apply_async (map (\<lambda>i. ''Thread_'' @ str_nat (nat (i + 1))) (py_range n) ! nat i)
                      # fst (tasks ! nat i)) (py_range n))
      = concat (map (\<lambda>k. Apply_async (thread_name k) # fst (translate_dataframe_segment P (chunks ! k)
            (thread_name k) (save_path dir k) lang)) [0..<m])"
  proof -
    have "map (\<lambda>i. Apply_async (map (\<lambda>i. ''Thread_'' @ str_nat (nat (i + 1))) (py_range n) ! nat i)
                      # fst (tasks ! nat i)) (py_range n)
        = map (\<lambda>k. Apply_async (thread_name k) # fst (translate_dataframe_segment P (chunks ! k)
            (thread_name k) (save_path dir k) lang)) [0..<m]"
      unfolding n py_range_pos tasks_def
      by (rule nth_equalityI) (simp_all add: thread_name_def nat_add_distrib add.commute)
    then show ?thesis by (simp only:)
  qed
  have unfolded: "translate_dataframe P df n dir lang =
     (case get_results (map snd tasks) of
        Inl err \<Rightarrow> (run_events P df m dir lang, Inl err)
      | Inr translated_dfs \<Rightarrow>
          (case pd_concat translated_dfs of
             Inl err \<Rightarrow> (run_events P df m dir lang, Inl err)
           | Inr translated_df \<Rightarrow>
               (run_events P df m dir lang @
                  [To_csv (path_join dir ''df_translated.csv'') translated_df,
                   Log_info (''Translation completed. File saved at '' @ path_join dir ''df_translated.csv'')],
                Inr translated_df)))"
    unfolding translate_dataframe_def Let_def df_chunks_pos [OF assms] m_def [symmetric]
      chunks_def [symmetric] sum.case tasks_src paths_src async_src
    by (simp add: run_events_def chunks_def split: sum.splits)
  have gathered: "translate_rows P lang df =
      (case get_results (map snd tasks) of Inl err \<Rightarrow> Inl err | Inr ds \<Rightarrow> Inr (concat ds))"
    using get_results_translate_rows [of P lang chunks] by (simp only: results cc)
  show ?thesis
  proof (cases "get_results (map snd tasks)")
    case (Inl err)
    then have "translate_rows P lang df = Inl err" by (simp add: gathered)
    with Inl show ?thesis
      unfolding unfolded m_def [symmetric] by simp
  next
    case (Inr ds)
    from get_results_length [OF Inr] have "ds \<noteq> []"
      using m len by (auto simp: tasks_def)
    moreover from Inr have "translate_rows P lang df = Inr (concat ds)" by (simp add: gathered)
    ultimately show ?thesis using Inr
      unfolding unfolded m_def [symmetric] by (simp add: pd_concat_def)
  qed
qed

lemma translate_dataframe_zero:
  "translate_dataframe P df 0 dir lang =
     ([Log_info ''Starting translation process...'', Makedirs (path_join dir ''dfs_translated'')],
      Inl ZeroDivisionError)"
  by (simp add: translate_dataframe_def df_chunks_def)

lemma translate_dataframe_neg:
  "n < 0 \<Longrightarrow> translate_dataframe P df n dir lang =
     ([Log_info ''Starting translation process...'', Makedirs (path_join dir ''dfs_translated'')],
      Inl IndexError)"
  by (simp add: translate_dataframe_def df_chunks_def py_range_def)

lemma run_result:
  "snd (translate_dataframe P df n dir lang) =
     (if n = 0 then Inl ZeroDivisionError else if n < 0 then Inl IndexError
      else translate_rows P lang df)"
proof -
  consider "n = 0" | "n < 0" | "1 \<le> n" by linarith
  then show ?thesis
  proof cases
    case 1 then show ?thesis by (simp add: translate_dataframe_zero)
  next
    case 2 then show ?thesis by (simp add: translate_dataframe_neg)
  next
    case 3 then show ?thesis
      by (simp add: translate_dataframe_pos split: sum.splits)
  qed
qed

lemma length_nonlast_chunk:
  assumes "i < m - 1"
  shows "length (take (length df div m) (drop (i * (length df div m)) df)) = length df div m"
proof -
  from assms have "i < m" by simp
  then have "Suc i * (length df div m) \<le> length df" by (rule chunk_bound)
  then show ?thesis by simp
qed

lemma chunks_of_nth:
  "i < m - 1 \<Longrightarrow> chunks_of df m ! i = take (length df div m) (drop (i * (length df div m)) df)"
  by (simp add: chunks_of_def nth_append)

lemma chunks_of_last: "chunks_of df m ! (m - 1) = drop ((m - 1) * (length df div m)) df"
  by (simp add: chunks_of_def nth_append)

section \<open>The partition (C2)\<close>

text \<open>
  Claim C2. For every thread count \<open>n \<ge> 1\<close> (and every frame, empty or not) the split of
  lines 48 to 52 succeeds and yields exactly \<open>n\<close> chunks. With
  \<open>size = length df div n\<close>, chunk \<open>i\<close> for \<open>i < n - 1\<close> is the \<open>size\<close> consecutive rows
  starting at row \<open>i * size\<close>, and has exactly \<open>size\<close> rows; the last chunk is every row
  from \<open>(n - 1) * size\<close> on, which is \<open>size\<close> rows plus the remainder of the division. The
  chunks concatenated in index order are the frame itself, so no row is dropped or
  duplicated. When the frame has fewer rows than \<open>n\<close>, the chunks before the last are
  empty and the last one is the whole frame.
\<close>

theorem df_chunks_partition:
  assumes "1 \<le> n"
  shows "\<exists>chunks. df_chunks df n = Inr chunks \<and> length chunks = nat n \<and>
           (\<forall>i<nat n - 1. chunks ! i = take (length df div nat n) (drop (i * (length df div nat n)) df)
                           \<and> length (chunks ! i) = length df div nat n) \<and>
           chunks ! (nat n - 1) = drop ((nat n - 1) * (length df div nat n)) df \<and>
           length (chunks ! (nat n - 1)) = length df div nat n + length df mod nat n \<and>
           concat chunks = df \<and>
           (length df < nat n \<longrightarrow> (\<forall>i<nat n - 1. chunks ! i = []) \<and> chunks ! (nat n - 1) = df)"
proof -
  define m where "m = nat n"
  define s where "s = length df div m"
  have m: "0 < m" using assms by (simp add: m_def)
  have "length df = m * s + length df mod m" by (simp add: s_def)
  moreover have "m * s = (m - 1) * s + s" using m by (cases m) simp_all
  ultimately have "length df - (m - 1) * s = s + length df mod m" by linarith
  moreover have "length (chunks_of df m ! (m - 1)) = length df - (m - 1) * s"
    unfolding chunks_of_last s_def by simp
  ultimately have lastlen: "length (chunks_of df m ! (m - 1)) = s + length df mod m"
    by (simp only:)
  have small: "(\<forall>i<m - 1. chunks_of df m ! i = []) \<and> chunks_of df m ! (m - 1) = df"
    if "length df < m"
  proof -
    from that have z: "length df div m = 0" by simp
    have "\<forall>i<m - 1. chunks_of df m ! i = []"
      using chunks_of_nth [of _ m df] by (simp add: z)
    moreover have "chunks_of df m ! (m - 1) = df"
      unfolding chunks_of_last z by simp
    ultimately show ?thesis by simp
  qed
  have "df_chunks df n = Inr (chunks_of df m)"
    using assms by (simp add: df_chunks_pos m_def)
  moreover have "length (chunks_of df m) = m" using m by (rule length_chunks_of)
  moreover have "\<forall>i<m - 1. chunks_of df m ! i = take s (drop (i * s) df) \<and> length (chunks_of df m ! i) = s"
  proof (intro allI impI)
    fix i assume i: "i < m - 1"
    show "chunks_of df m ! i = take s (drop (i * s) df) \<and> length (chunks_of df m ! i) = s"
      unfolding chunks_of_nth [OF i] s_def using length_nonlast_chunk [OF i] by (simp only: simp_thms)
  qed
  moreover have "chunks_of df m ! (m - 1) = drop ((m - 1) * s) df"
    unfolding s_def by (rule chunks_of_last)
  moreover have "concat (chunks_of df m) = df" using m by (rule concat_chunks_of)
  ultimately show ?thesis
    using lastlen small unfolding m_def [symmetric] s_def [symmetric] by blast
qed

text \<open>Three rows split for five threads: four empty chunks, then all rows.\<close>

theorem df_chunks_partition_witness:
  "(1::int) \<le> 5 \<and> df_chunks df3 5 = Inr [[], [], [], [], df3] \<and>
   (\<exists>chunks. df_chunks df3 5 = Inr chunks \<and> length chunks = 5 \<and> concat chunks = df3)"
proof -
  have h: "(1::int) \<le> 5" by simp
  have ev: "df_chunks df3 5 = Inr [[], [], [], [], df3]" by code_simp
  from df_chunks_partition [OF h, of df3]
  have "\<exists>chunks. df_chunks df3 5 = Inr chunks \<and> length chunks = 5 \<and> concat chunks = df3"
    by auto
  with h ev show ?thesis by (simp only: simp_thms)
qed

lemma row_result_valid:
  "map_of r ''text'' = Some (Str s) \<Longrightarrow> \<exists>t. row_result P lang r = Inr t"
  by (cases "P (Str s) lang") (simp_all add: row_result_def translate_text_def slice30_def)

lemma valid_segment_rows:
  assumes "valid_segment seg"
  shows "\<forall>r\<in>set seg. \<exists>t. row_result P lang r = Inr t"
proof
  fix r assume "r \<in> set seg"
  with assms have "case map_of r ''text'' of Some (Str s) \<Rightarrow> True | _ \<Rightarrow> False"
    by (simp add: valid_segment_def list_all_iff)
  then obtain s where "map_of r ''text'' = Some (Str s)"
    by (auto split: option.splits cell.splits)
  then show "\<exists>t. row_result P lang r = Inr t" by (rule row_result_valid)
qed

lemma translate_rows_update:
  assumes "translate_rows P lang rows = Inr out"
  shows "length out = length rows \<and>
     (\<forall>i<length rows. \<exists>t. row_result P lang (rows ! i) = Inr t \<and>
          out ! i = AList.update ''text_translated'' (Str t) (rows ! i))"
  using translate_rows_nth [OF assms] by (simp add: add_translation_def)

lemma update_absent: "map_of al k = None \<Longrightarrow> AList.update k v al = al @ [(k, v)]"
  by (induction al) (auto split: if_splits)

lemma row_result_content:
  assumes "row_result P lang r = Inr t"
  shows "\<exists>tx. map_of r ''text'' = Some tx \<and> t = translation_of P lang tx"
proof (cases "map_of r ''text''")
  case None
  with assms show ?thesis by (simp add: row_result_def)
next
  case (Some tx)
  with assms have "snd (translate_text P tx lang) = Inr t" by (simp add: row_result_def)
  then have "t = translation_of P lang tx"
    by (auto simp: translate_text_def translation_of_def split: sum.splits)
  with Some show ?thesis by simp
qed

lemma translate_rows_content:
  assumes "translate_rows P lang rows = Inr out"
  shows "\<forall>i<length rows. \<exists>tx. map_of (rows ! i) ''text'' = Some tx \<and>
           row_result P lang (rows ! i) = Inr (translation_of P lang tx) \<and>
           out ! i = AList.update ''text_translated'' (Str (translation_of P lang tx)) (rows ! i)"
proof (intro allI impI)
  fix i assume "i < length rows"
  with translate_rows_update [OF assms] obtain t where
    t: "row_result P lang (rows ! i) = Inr t"
    and o: "out ! i = AList.update ''text_translated'' (Str t) (rows ! i)"
    by blast
  from row_result_content [OF t] obtain tx where
    "map_of (rows ! i) ''text'' = Some tx" and "t = translation_of P lang tx"
    by blast
  with t o show "\<exists>tx. map_of (rows ! i) ''text'' = Some tx \<and>
           row_result P lang (rows ! i) = Inr (translation_of P lang tx) \<and>
           out ! i = AList.update ''text_translated'' (Str (translation_of P lang tx)) (rows ! i)"
    by blast
qed

section \<open>The segment translator (C6, C3, C10)\<close>

text \<open>
  The segment translator where it works. Every segment whose rows all have a \<open>text\<close> field
  holding a string is translated without an exception. Whenever the function returns, the
  result has as many rows as the segment, and its row \<open>i\<close> is row \<open>i\<close> of the segment with
  \<open>text_translated\<close> set to the provider's translation of that row's text, or to the
  sentinel where the provider failed. The empty segment gives the empty result, with no
  effect.
\<close>

theorem translate_dataframe_segment_rows:
  "(valid_segment seg \<longrightarrow> (\<exists>out. snd (translate_dataframe_segment P seg th sp lang) = Inr out)) \<and>
   (\<forall>out. snd (translate_dataframe_segment P seg th sp lang) = Inr out \<longrightarrow>
      length out = length seg \<and>
      (\<forall>i<length seg. \<exists>tx. map_of (seg ! i) ''text'' = Some tx \<and>
           row_result P lang (seg ! i) = Inr (translation_of P lang tx) \<and>
           out ! i = AList.update ''text_translated'' (Str (translation_of P lang tx)) (seg ! i))) \<and>
   translate_dataframe_segment P [] th sp lang = ([], Inr [])"
proof -
  have returns: "\<exists>out. snd (translate_dataframe_segment P seg th sp lang) = Inr out"
    if "valid_segment seg"
  proof -
    from that have "\<forall>r\<in>set seg. \<exists>t. row_result P lang r = Inr t"
      by (rule valid_segment_rows)
    then have "\<exists>out. translate_rows P lang seg = Inr out" by (rule translate_rows_total)
    then show ?thesis by (simp only: segment_result)
  qed
  have rows: "length out = length seg \<and>
      (\<forall>i<length seg. \<exists>tx. map_of (seg ! i) ''text'' = Some tx \<and>
           row_result P lang (seg ! i) = Inr (translation_of P lang tx) \<and>
           out ! i = AList.update ''text_translated'' (Str (translation_of P lang tx)) (seg ! i))"
    if "snd (translate_dataframe_segment P seg th sp lang) = Inr out" for out
  proof -
    from that have r: "translate_rows P lang seg = Inr out" by (simp only: segment_result)
    from translate_rows_update [OF r] have "length out = length seg" by simp
    with translate_rows_content [OF r] show ?thesis by simp
  qed
  have empty: "translate_dataframe_segment P [] th sp lang = ([], Inr [])"
    by (simp add: translate_dataframe_segment_def set_column_def)
  from returns rows empty show ?thesis by blast
qed

text \<open>A three-row segment whose second text is empty, so that the provider rejects it.\<close>

theorem translate_dataframe_segment_rows_witness:
  "valid_segment df_empty_text \<and>
   snd (translate_dataframe_segment demo_provider df_empty_text ''Thread_1'' ''p'' ''de'') =
     Inr [[(''id'', Num 0), (''text'', Str ''a''), (''text_translated'', Str ''de:a'')],
          [(''id'', Num 1), (''text'', Str []), (''text_translated'', Str ''no translation'')],
          [(''id'', Num 2), (''text'', Str ''c''), (''text_translated'', Str ''de:c'')]] \<and>
   (\<exists>out. snd (translate_dataframe_segment demo_provider df_empty_text ''Thread_1'' ''p'' ''de'') = Inr out
      \<and> length out = length df_empty_text)"
proof -
  have v: "valid_segment df_empty_text" by code_simp
  have ev: "snd (translate_dataframe_segment demo_provider df_empty_text ''Thread_1'' ''p'' ''de'') =
     Inr [[(''id'', Num 0), (''text'', Str ''a''), (''text_translated'', Str ''de:a'')],
          [(''id'', Num 1), (''text'', Str []), (''text_translated'', Str ''no translation'')],
          [(''id'', Num 2), (''text'', Str ''c''), (''text_translated'', Str ''de:c'')]]"
    by code_simp
  from translate_dataframe_segment_rows [of df_empty_text demo_provider "''Thread_1''" "''p''" "''de''"] v
  have "\<exists>out. snd (translate_dataframe_segment demo_provider df_empty_text ''Thread_1'' ''p'' ''de'') = Inr out
      \<and> length out = length df_empty_text"
    by blast
  with v ev show ?thesis by (simp only: simp_thms)
qed

text \<open>
  Claim C6, at an input where the code departs from it. The segment has two rows, read from
  a CSV file whose first text field is empty. The provider rejects the NaN, the handler's
  \<^verbatim>\<open>text[:30]\<close> raises \<^verbatim>\<open>TypeError\<close>, and the function ends with that exception after a
  single provider call: the segment fails as a whole, and no segment of two rows is
  returned.
\<close>

theorem translate_dataframe_segment_whole_failure:
  "length df_nan_first = 2 \<and>
   translate_dataframe_segment demo_provider df_nan_first ''Thread_1'' ''p'' ''de'' =
     ([Provider_call NaN ''de''], Inl TypeError)"
  by code_simp

text \<open>
  Claim C3, at the input where the code departs from it. The segment has three rows; the text
  of the second is NaN, which the provider rejects. The handler's \<^verbatim>\<open>text[:30]\<close> then raises
  \<^verbatim>\<open>TypeError\<close>, which leaves \<^verbatim>\<open>translate_text\<close> and the segment translator: no row of
  the segment is returned, and the third row is never translated.
\<close>

theorem translate_dataframe_segment_nan_text:
  "demo_provider NaN ''de'' = Inl ''NotValidPayload'' \<and>
   translate_dataframe_segment demo_provider df_nan ''Thread_1'' ''p'' ''de'' =
     ([Provider_call (Str ''a'') ''de'', Provider_call NaN ''de''], Inl TypeError)"
  by code_simp

text \<open>
  Claim C10. When the provider fails, \<^verbatim>\<open>translate_text\<close> returns the sentinel if the text is
  a string. Otherwise the handler's \<^verbatim>\<open>text[:30]\<close> raises (\<^verbatim>\<open>TypeError\<close> on a Python number or
  NaN, \<^verbatim>\<open>IndexError\<close> on a numpy scalar) and that exception leaves the function, after
  the provider call and with nothing logged. So the function returns exactly when the
  text is a string.
\<close>

theorem translate_text_failure:
  assumes "P tx lang = Inl e"
  shows "snd (translate_text P tx lang) =
           (case tx of
              Str s \<Rightarrow> Inr ''no translation''
            | Num i \<Rightarrow> Inl TypeError
            | NaN \<Rightarrow> Inl TypeError
            | Np_num i \<Rightarrow> Inl IndexError
            | Np_nan \<Rightarrow> Inl IndexError) \<and>
         ((\<exists>t. snd (translate_text P tx lang) = Inr t) \<longleftrightarrow> (\<exists>s. tx = Str s)) \<and>
         ((\<forall>s. tx \<noteq> Str s) \<longrightarrow>
            (\<exists>err. translate_text P tx lang = ([Provider_call tx lang], Inl err)))"
  using assms by (cases tx) (simp_all add: translate_text_def slice30_def)

text \<open>
  An empty field in a column of strings (a Python NaN), an empty field in a frame of numbers
  (a numpy NaN), and an empty string.
\<close>

theorem translate_text_failure_witness:
  "demo_provider NaN ''de'' = Inl ''NotValidPayload'' \<and>
   translate_text demo_provider NaN ''de'' = ([Provider_call NaN ''de''], Inl TypeError) \<and>
   demo_provider Np_nan ''de'' = Inl ''NotValidPayload'' \<and>
   translate_text demo_provider Np_nan ''de'' = ([Provider_call Np_nan ''de''], Inl IndexError) \<and>
   demo_provider (Str []) ''de'' = Inl ''NotValidPayload'' \<and>
   snd (translate_text demo_provider (Str []) ''de'') = Inr ''no translation''"
proof -
  have h1: "demo_provider NaN ''de'' = Inl ''NotValidPayload''" by (simp add: demo_provider_def)
  have h2: "demo_provider (Str []) ''de'' = Inl ''NotValidPayload''" by (simp add: demo_provider_def)
  have h3: "demo_provider Np_nan ''de'' = Inl ''NotValidPayload''" by (simp add: demo_provider_def)
  from translate_text_failure [of demo_provider NaN "''de''", OF h1]
  have a: "translate_text demo_provider NaN ''de'' = ([Provider_call NaN ''de''], Inl TypeError)"
    by auto
  from translate_text_failure [of demo_provider Np_nan "''de''", OF h3]
  have b: "translate_text demo_provider Np_nan ''de'' = ([Provider_call Np_nan ''de''], Inl IndexError)"
    by auto
  from translate_text_failure [of demo_provider "Str []" "''de''", OF h2]
  have c: "snd (translate_text demo_provider (Str []) ''de'') = Inr ''no translation''"
    by simp
  from h1 a h3 b h2 c show ?thesis by (simp only: simp_thms)
qed

lemma run_returns:
  assumes "snd (translate_dataframe P df n dir lang) = Inr out"
  shows "1 \<le> n \<and> translate_rows P lang df = Inr out"
  using assms unfolding run_result by (auto split: if_splits)

text \<open>
  What a returned frame holds: row \<open>i\<close> is row \<open>i\<close> of the input with \<open>text_translated\<close> set to
  the provider's translation of that row's text, or to the sentinel where the provider
  failed.
\<close>

lemma translate_dataframe_content:
  assumes "snd (translate_dataframe P df n dir lang) = Inr out"
  shows "\<forall>i<length df. \<exists>tx. map_of (df ! i) ''text'' = Some tx \<and>
           out ! i = AList.update ''text_translated'' (Str (translation_of P lang tx)) (df ! i)"
proof -
  from run_returns [OF assms] have "translate_rows P lang df = Inr out" by simp
  from translate_rows_content [OF this] show ?thesis by blast
qed

section \<open>The coordinator: order, fields and independence of the thread count (C1, C7, C9)\<close>

text \<open>
  Claim C1. For every thread count \<open>n \<ge> 1\<close>: whenever the run returns a frame, it has as
  many rows as the input and its row \<open>i\<close> is row \<open>i\<close> of the input with the translation of
  that row's text stored under \<open>text_translated\<close>; and the run does return a frame when no
  row's translation raises.
\<close>

theorem translate_dataframe_order:
  assumes "1 \<le> n"
  shows "(\<forall>out. snd (translate_dataframe P df n dir lang) = Inr out \<longrightarrow>
            length out = length df \<and>
            (\<forall>i<length df. \<exists>t. row_result P lang (df ! i) = Inr t \<and>
                 out ! i = AList.update ''text_translated'' (Str t) (df ! i))) \<and>
         ((\<forall>r\<in>set df. \<exists>t. row_result P lang r = Inr t) \<longrightarrow>
            (\<exists>out. snd (translate_dataframe P df n dir lang) = Inr out))"
proof -
  have res: "snd (translate_dataframe P df n dir lang) = translate_rows P lang df"
    using assms by (simp add: run_result)
  have rows: "length out = length df \<and>
            (\<forall>i<length df. \<exists>t. row_result P lang (df ! i) = Inr t \<and>
                 out ! i = AList.update ''text_translated'' (Str t) (df ! i))"
    if "snd (translate_dataframe P df n dir lang) = Inr out" for out
  proof -
    from that have "translate_rows P lang df = Inr out" by (simp only: res)
    then show ?thesis by (rule translate_rows_update)
  qed
  have returns: "\<exists>out. snd (translate_dataframe P df n dir lang) = Inr out"
    if "\<forall>r\<in>set df. \<exists>t. row_result P lang r = Inr t"
    unfolding res using that by (rule translate_rows_total)
  from rows returns show ?thesis by blast
qed

text \<open>Three rows on two threads: chunks of one and two rows, merged in index order.\<close>

theorem translate_dataframe_order_witness:
  "(1::int) \<le> 2 \<and> df_empty_text \<noteq> [] \<and>
   snd (translate_dataframe demo_provider df_empty_text 2 ''out'' ''de'') =
     Inr [[(''id'', Num 0), (''text'', Str ''a''), (''text_translated'', Str ''de:a'')],
          [(''id'', Num 1), (''text'', Str []), (''text_translated'', Str ''no translation'')],
          [(''id'', Num 2), (''text'', Str ''c''), (''text_translated'', Str ''de:c'')]] \<and>
   (\<exists>out. snd (translate_dataframe demo_provider df_empty_text 2 ''out'' ''de'') = Inr out \<and>
      length out = length df_empty_text)"
proof -
  have h: "(1::int) \<le> 2" by simp
  have ne: "df_empty_text \<noteq> []" by (simp add: df_empty_text_def)
  have ev: "snd (translate_dataframe demo_provider df_empty_text 2 ''out'' ''de'') =
     Inr [[(''id'', Num 0), (''text'', Str ''a''), (''text_translated'', Str ''de:a'')],
          [(''id'', Num 1), (''text'', Str []), (''text_translated'', Str ''no translation'')],
          [(''id'', Num 2), (''text'', Str ''c''), (''text_translated'', Str ''de:c'')]]"
    by code_simp
  from translate_dataframe_order [OF h, of demo_provider df_empty_text "''out''" "''de''"] ev
  have "\<exists>out. snd (translate_dataframe demo_provider df_empty_text 2 ''out'' ''de'') = Inr out \<and>
      length out = length df_empty_text"
    by blast
  with h ne ev show ?thesis by (simp only: simp_thms)
qed

lemma update_present: "map_of al k \<noteq> None \<Longrightarrow> map fst (AList.update k v al) = map fst al"
  by (induction al) auto

text \<open>
  Claim C7 as stated fails on the code: on a frame that already has a column
  \<open>text_translated\<close> (the output of an earlier run, say), the assignment of line 37
  replaces the values of that column. The value \<open>old\<close> of an existing field is modified and
  the row has three fields before and after: no field is added.
\<close>

theorem translate_dataframe_overwrites_column:
  "map_of (df_translated_before ! 0) ''text_translated'' = Some (Str ''old'') \<and>
   length (df_translated_before ! 0) = 3 \<and>
   snd (translate_dataframe demo_provider df_translated_before 1 ''out'' ''de'') =
     Inr [[(''id'', Num 7), (''text'', Str ''hi''), (''text_translated'', Str ''de:hi'')]]"
  by code_simp

text \<open>
  Claim C7 as amended. Whenever a run returns a frame, every field of every row other than
  \<open>text_translated\<close> has the value it had in the input, and the field \<open>text_translated\<close>
  holds a string. A row that had no field \<open>text_translated\<close> has exactly that one field
  appended after its own. A row that had one keeps its fields, in their order, and only
  the value of \<open>text_translated\<close> is replaced.
\<close>

theorem translate_dataframe_frame:
  assumes "snd (translate_dataframe P df n dir lang) = Inr out"
  shows "length out = length df \<and>
         (\<forall>i<length df.
            (\<forall>c. c \<noteq> ''text_translated'' \<longrightarrow> map_of (out ! i) c = map_of (df ! i) c) \<and>
            (\<exists>t. map_of (out ! i) ''text_translated'' = Some (Str t)) \<and>
            (map_of (df ! i) ''text_translated'' = None \<longrightarrow>
               (\<exists>t. out ! i = df ! i @ [(''text_translated'', Str t)])) \<and>
            (map_of (df ! i) ''text_translated'' \<noteq> None \<longrightarrow>
               map fst (out ! i) = map fst (df ! i)))"
proof -
  from run_returns [OF assms] have "translate_rows P lang df = Inr out" by simp
  from translate_rows_update [OF this]
  have len: "length out = length df"
    and upd: "\<forall>i<length df. \<exists>t. out ! i = AList.update ''text_translated'' (Str t) (df ! i)"
    by blast+
  have "(\<forall>c. c \<noteq> ''text_translated'' \<longrightarrow> map_of (out ! i) c = map_of (df ! i) c) \<and>
        (\<exists>t. map_of (out ! i) ''text_translated'' = Some (Str t)) \<and>
        (map_of (df ! i) ''text_translated'' = None \<longrightarrow>
           (\<exists>t. out ! i = df ! i @ [(''text_translated'', Str t)])) \<and>
        (map_of (df ! i) ''text_translated'' \<noteq> None \<longrightarrow>
           map fst (out ! i) = map fst (df ! i))"
    if "i < length df" for i
  proof -
    from upd that obtain t where o: "out ! i = AList.update ''text_translated'' (Str t) (df ! i)"
      by blast
    have "\<forall>c. c \<noteq> ''text_translated'' \<longrightarrow> map_of (out ! i) c = map_of (df ! i) c"
      unfolding o by (simp add: update_conv')
    moreover have "map_of (out ! i) ''text_translated'' = Some (Str t)"
      unfolding o by (simp add: update_conv')
    moreover have "out ! i = df ! i @ [(''text_translated'', Str t)]"
      if "map_of (df ! i) ''text_translated'' = None"
      unfolding o using that by (rule update_absent)
    moreover have "map fst (out ! i) = map fst (df ! i)"
      if "map_of (df ! i) ''text_translated'' \<noteq> None"
      unfolding o using that by (rule update_present)
    ultimately show ?thesis by blast
  qed
  with len show ?thesis by blast
qed

text \<open>A fresh frame, which gets the new field, and a frame translated before, which keeps its fields.\<close>

theorem translate_dataframe_frame_witness:
  "snd (translate_dataframe demo_provider [tweet 7 ''hi''] 1 ''out'' ''de'') =
     Inr [[(''id'', Num 7), (''text'', Str ''hi''), (''text_translated'', Str ''de:hi'')]] \<and>
   map_of ([tweet 7 ''hi''] ! 0) ''text_translated'' = None \<and>
   map_of ([[(''id'', Num 7), (''text'', Str ''hi''), (''text_translated'', Str ''de:hi'')]] ! 0) ''id''
     = map_of ([tweet 7 ''hi''] ! 0) ''id'' \<and>
   snd (translate_dataframe demo_provider df_translated_before 1 ''out'' ''de'') =
     Inr [[(''id'', Num 7), (''text'', Str ''hi''), (''text_translated'', Str ''de:hi'')]] \<and>
   map_of (df_translated_before ! 0) ''text_translated'' = Some (Str ''old'') \<and>
   map fst ([[(''id'', Num 7), (''text'', Str ''hi''), (''text_translated'', Str ''de:hi'')]] ! 0)
     = map fst (df_translated_before ! 0)"
proof -
  have ev: "snd (translate_dataframe demo_provider [tweet 7 ''hi''] 1 ''out'' ''de'') =
     Inr [[(''id'', Num 7), (''text'', Str ''hi''), (''text_translated'', Str ''de:hi'')]]"
    by code_simp
  have a: "map_of ([tweet 7 ''hi''] ! 0) ''text_translated'' = None"
    by (simp add: tweet_def)
  from translate_dataframe_frame [OF ev]
  have f: "\<forall>i<length [tweet 7 ''hi''].
          \<forall>c. c \<noteq> ''text_translated'' \<longrightarrow>
            map_of ([[(''id'', Num 7), (''text'', Str ''hi''), (''text_translated'', Str ''de:hi'')]] ! i) c
              = map_of ([tweet 7 ''hi''] ! i) c"
    by blast
  from f [rule_format, of 0 "''id''"]
  have b: "map_of ([[(''id'', Num 7), (''text'', Str ''hi''), (''text_translated'', Str ''de:hi'')]] ! 0) ''id''
     = map_of ([tweet 7 ''hi''] ! 0) ''id''"
    by simp
  have ev2: "snd (translate_dataframe demo_provider df_translated_before 1 ''out'' ''de'') =
     Inr [[(''id'', Num 7), (''text'', Str ''hi''), (''text_translated'', Str ''de:hi'')]]"
    by code_simp
  have a2: "map_of (df_translated_before ! 0) ''text_translated'' = Some (Str ''old'')"
    by (simp add: df_translated_before_def)
  from translate_dataframe_frame [OF ev2]
  have g: "\<forall>i<length df_translated_before.
          map_of (df_translated_before ! i) ''text_translated'' \<noteq> None \<longrightarrow>
            map fst ([[(''id'', Num 7), (''text'', Str ''hi''), (''text_translated'', Str ''de:hi'')]] ! i)
              = map fst (df_translated_before ! i)"
    by blast
  have l: "0 < length df_translated_before" by (simp add: df_translated_before_def)
  from g [rule_format, OF l] a2
  have c: "map fst ([[(''id'', Num 7), (''text'', Str ''hi''), (''text_translated'', Str ''de:hi'')]] ! 0)
     = map fst (df_translated_before ! 0)"
    by simp
  from ev a b ev2 a2 c show ?thesis by (simp only: simp_thms)
qed

text \<open>
  Claim C9. For every frame and every provider (a function, so deterministic), a run with
  any thread count \<open>n \<ge> 1\<close> returns what the run with one thread returns: the same rows in
  the same order, or the same exception.
\<close>

theorem translate_dataframe_thread_count:
  assumes "1 \<le> n"
  shows "snd (translate_dataframe P df n dir lang) = snd (translate_dataframe P df 1 dir lang)"
  using assms by (simp add: run_result)

theorem translate_dataframe_thread_count_witness:
  "(1::int) \<le> 4 \<and>
   snd (translate_dataframe demo_provider df_empty_text 4 ''out'' ''de'') =
     snd (translate_dataframe demo_provider df_empty_text 1 ''out'' ''de'') \<and>
   snd (translate_dataframe demo_provider df_empty_text 4 ''out'' ''de'') =
     Inr [[(''id'', Num 0), (''text'', Str ''a''), (''text_translated'', Str ''de:a'')],
          [(''id'', Num 1), (''text'', Str []), (''text_translated'', Str ''no translation'')],
          [(''id'', Num 2), (''text'', Str ''c''), (''text_translated'', Str ''de:c'')]]"
proof -
  have h: "(1::int) \<le> 4" by simp
  have ev: "snd (translate_dataframe demo_provider df_empty_text 4 ''out'' ''de'') =
     Inr [[(''id'', Num 0), (''text'', Str ''a''), (''text_translated'', Str ''de:a'')],
          [(''id'', Num 1), (''text'', Str []), (''text_translated'', Str ''no translation'')],
          [(''id'', Num 2), (''text'', Str ''c''), (''text_translated'', Str ''de:c'')]]"
    by code_simp
  from translate_dataframe_thread_count [OF h, of demo_provider df_empty_text "''out''" "''de''"] h ev
  show ?thesis by (simp only: simp_thms)
qed

lemma translate_text_no_to_csv: "filter is_to_csv (fst (translate_text P tx lang)) = []"
  by (simp add: translate_text_def slice30_def split: sum.splits cell.splits)

lemma segment_loop_no_to_csv: "filter is_to_csv (fst (segment_loop P th lang rows acc c)) = []"
proof (induction rows arbitrary: acc c)
  case Nil
  show ?case by simp
next
  case (Cons r rows)
  show ?case
  proof (cases "map_of r ''text''")
    case None
    then show ?thesis by simp
  next
    case (Some tx)
    obtain es res where tt: "translate_text P tx lang = (es, res)"
      by (cases "translate_text P tx lang")
    from translate_text_no_to_csv [of P tx lang] tt have es: "filter is_to_csv es = []" by simp
    show ?thesis
    proof (cases res)
      case (Inl err)
      with Some tt es show ?thesis by simp
    next
      case (Inr t)
      with Some tt es Cons.IH [of "acc @ [t]" "c + 1"] show ?thesis
        by (auto simp: Let_def split: prod.splits)
    qed
  qed
qed

lemma segment_no_to_csv:
  "filter is_to_csv (fst (translate_dataframe_segment P seg th sp lang)) = []"
  using segment_loop_no_to_csv [of P th lang seg "[]" 0]
  by (auto simp: translate_dataframe_segment_def split: prod.splits sum.splits)

lemma run_events_no_to_csv: "filter is_to_csv (run_events P df m dir lang) = []"
  by (simp add: run_events_def filter_concat comp_def segment_no_to_csv)

lemma chunks_of_empty: "k < m \<Longrightarrow> chunks_of [] m ! k = []"
  by (simp add: chunks_of_def nth_append)

lemma segment_empty: "translate_dataframe_segment P [] th sp lang = ([], Inr [])"
  by (simp add: translate_dataframe_segment_def set_column_def)

lemma run_events_empty:
  "run_events P [] m dir lang =
     [Log_info ''Starting translation process...'', Makedirs (path_join dir ''dfs_translated'')]
     @ map (\<lambda>k. Makedirs (save_path dir k)) [0..<m]
     @ map (\<lambda>k. Apply_async (thread_name k)) [0..<m]"
proof -
  have "map (\<lambda>k. Apply_async (thread_name k) #
                 fst (translate_dataframe_segment P (chunks_of [] m ! k) (thread_name k)
                        (save_path dir k) lang)) [0..<m]
        = map (\<lambda>k. [Apply_async (thread_name k)]) [0..<m]"
    by (rule map_cong) (simp_all add: chunks_of_empty segment_empty)
  then have "concat (map (\<lambda>k. Apply_async (thread_name k) #
                 fst (translate_dataframe_segment P (chunks_of [] m ! k) (thread_name k)
                        (save_path dir k) lang)) [0..<m])
        = map (\<lambda>k. Apply_async (thread_name k)) [0..<m]"
    by (simp only: concat_map_singleton)
  then show ?thesis
    unfolding run_events_def by (simp only:)
qed

section \<open>Invalid configurations (C4)\<close>

text \<open>
  Claim C4 as stated fails on the code: a run on an empty frame is not rejected. With one
  thread it makes the directories, submits one (empty) chunk, writes the empty frame and
  returns it.
\<close>

theorem translate_dataframe_empty_input_runs:
  "translate_dataframe demo_provider [] 1 ''out'' ''de'' =
     ([Log_info ''Starting translation process...'',
       Makedirs ''out/dfs_translated'',
       Makedirs ''out/dfs_translated/sub_dfs_translated_1'',
       Apply_async ''Thread_1'',
       To_csv ''out/df_translated.csv'' [],
       Log_info ''Translation completed. File saved at out/df_translated.csv''],
      Inr [])"
  by code_simp

text \<open>
  Claim C4 as amended. The code has no check of its configuration and no
  \<open>InvalidConfiguration\<close> error. A thread count of zero ends the run with
  \<^verbatim>\<open>ZeroDivisionError\<close> and a negative one with \<^verbatim>\<open>IndexError\<close>; in both cases all that has
  happened is the start message and the creation of the directory \<open>dfs_translated\<close>: no
  chunk was submitted and the provider was not called. An empty frame with \<open>n \<ge> 1\<close> is
  processed like any other: \<open>n\<close> empty chunks are submitted, the provider is never called,
  and the run writes and returns the empty frame.
\<close>

theorem translate_dataframe_invalid_configuration:
  "(n = 0 \<longrightarrow> translate_dataframe P df n dir lang =
      ([Log_info ''Starting translation process...'', Makedirs (path_join dir ''dfs_translated'')],
       Inl ZeroDivisionError)) \<and>
   (n < 0 \<longrightarrow> translate_dataframe P df n dir lang =
      ([Log_info ''Starting translation process...'', Makedirs (path_join dir ''dfs_translated'')],
       Inl IndexError)) \<and>
   (1 \<le> n \<longrightarrow>
      snd (translate_dataframe P [] n dir lang) = Inr [] \<and>
      filter is_provider_call (fst (translate_dataframe P [] n dir lang)) = [] \<and>
      length (filter is_apply_async (fst (translate_dataframe P [] n dir lang))) = nat n)"
proof -
  have pos: "snd (translate_dataframe P [] n dir lang) = Inr [] \<and>
      filter is_provider_call (fst (translate_dataframe P [] n dir lang)) = [] \<and>
      length (filter is_apply_async (fst (translate_dataframe P [] n dir lang))) = nat n"
    if "1 \<le> n"
  proof -
    have "translate_dataframe P [] n dir lang =
        (run_events P [] (nat n) dir lang @
           [To_csv (path_join dir ''df_translated.csv'') [],
            Log_info (''Translation completed. File saved at '' @ path_join dir ''df_translated.csv'')],
         Inr [])"
      using that by (simp add: translate_dataframe_pos)
    then show ?thesis
      by (simp add: run_events_empty comp_def)
  qed
  show ?thesis
    using pos translate_dataframe_zero [of P df dir lang] translate_dataframe_neg [of n P df dir lang]
    by blast
qed

theorem translate_dataframe_invalid_configuration_witness:
  "translate_dataframe demo_provider df3 0 ''out'' ''de'' =
      ([Log_info ''Starting translation process...'', Makedirs ''out/dfs_translated''],
       Inl ZeroDivisionError) \<and>
   translate_dataframe demo_provider df3 (- 2) ''out'' ''de'' =
      ([Log_info ''Starting translation process...'', Makedirs ''out/dfs_translated''],
       Inl IndexError) \<and>
   snd (translate_dataframe demo_provider [] 3 ''out'' ''de'') = Inr [] \<and>
   filter is_provider_call (fst (translate_dataframe demo_provider [] 3 ''out'' ''de'')) = [] \<and>
   length (filter is_apply_async (fst (translate_dataframe demo_provider [] 3 ''out'' ''de''))) = 3"
proof -
  have p: "path_join ''out'' ''dfs_translated'' = ''out/dfs_translated''" by code_simp
  from translate_dataframe_invalid_configuration [of 0 demo_provider df3 "''out''" "''de''"]
  have z: "translate_dataframe demo_provider df3 0 ''out'' ''de'' =
      ([Log_info ''Starting translation process...'', Makedirs ''out/dfs_translated''],
       Inl ZeroDivisionError)"
    by (simp add: p)
  from translate_dataframe_invalid_configuration [of "- 2" demo_provider df3 "''out''" "''de''"]
  have m: "translate_dataframe demo_provider df3 (- 2) ''out'' ''de'' =
      ([Log_info ''Starting translation process...'', Makedirs ''out/dfs_translated''],
       Inl IndexError)"
    by (simp add: p)
  from translate_dataframe_invalid_configuration [of 3 demo_provider df3 "''out''" "''de''"]
  have e: "snd (translate_dataframe demo_provider [] 3 ''out'' ''de'') = Inr [] \<and>
   filter is_provider_call (fst (translate_dataframe demo_provider [] 3 ''out'' ''de'')) = [] \<and>
   length (filter is_apply_async (fst (translate_dataframe demo_provider [] 3 ''out'' ''de''))) = 3"
    by simp
  from z m e show ?thesis by (simp only: simp_thms)
qed

section \<open>Persistence (C8)\<close>

text \<open>
  Claim C8 as stated fails on the code: the coordinator itself writes the merged frame to
  a file before it returns.
\<close>

theorem translate_dataframe_writes_csv:
  "To_csv ''out/df_translated.csv''
     [[(''id'', Num 7), (''text'', Str ''hi''), (''text_translated'', Str ''de:hi'')]]
   \<in> set (fst (translate_dataframe demo_provider [tweet 7 ''hi''] 1 ''out'' ''de''))"
  by code_simp

text \<open>
  Claim C8 as amended. The coordinator persists the result itself: a run that returns a
  frame has written exactly one file, \<open>df_translated.csv\<close> in the parent directory, holding
  the very frame that it returns, as its last effect but for the closing log message; a
  run that ends with an exception has written no file.
\<close>

theorem translate_dataframe_persists:
  "(\<forall>out. snd (translate_dataframe P df n dir lang) = Inr out \<longrightarrow>
      filter is_to_csv (fst (translate_dataframe P df n dir lang)) =
        [To_csv (path_join dir ''df_translated.csv'') out] \<and>
      (\<exists>es. fst (translate_dataframe P df n dir lang) =
         es @ [To_csv (path_join dir ''df_translated.csv'') out,
               Log_info (''Translation completed. File saved at '' @ path_join dir ''df_translated.csv'')])) \<and>
   (\<forall>err. snd (translate_dataframe P df n dir lang) = Inl err \<longrightarrow>
      filter is_to_csv (fst (translate_dataframe P df n dir lang)) = [])"
proof -
  consider "n = 0" | "n < 0" | "1 \<le> n" by linarith
  then show ?thesis
  proof cases
    case 1
    then show ?thesis by (simp add: translate_dataframe_zero)
  next
    case 2
    then show ?thesis by (simp add: translate_dataframe_neg)
  next
    case 3
    show ?thesis
    proof (cases "translate_rows P lang df")
      case (Inl err)
      with 3 show ?thesis
        by (simp add: translate_dataframe_pos run_events_no_to_csv)
    next
      case (Inr out)
      with 3 show ?thesis
        by (simp add: translate_dataframe_pos run_events_no_to_csv)
    qed
  qed
qed

theorem translate_dataframe_persists_witness:
  "snd (translate_dataframe demo_provider [tweet 7 ''hi''] 1 ''out'' ''de'') =
     Inr [[(''id'', Num 7), (''text'', Str ''hi''), (''text_translated'', Str ''de:hi'')]] \<and>
   filter is_to_csv (fst (translate_dataframe demo_provider [tweet 7 ''hi''] 1 ''out'' ''de'')) =
     [To_csv ''out/df_translated.csv''
        [[(''id'', Num 7), (''text'', Str ''hi''), (''text_translated'', Str ''de:hi'')]]] \<and>
   snd (translate_dataframe demo_provider df_nan 2 ''out'' ''de'') = Inl TypeError \<and>
   filter is_to_csv (fst (translate_dataframe demo_provider df_nan 2 ''out'' ''de'')) = []"
proof -
  have p: "path_join ''out'' ''df_translated.csv'' = ''out/df_translated.csv''" by code_simp
  have ok: "snd (translate_dataframe demo_provider [tweet 7 ''hi''] 1 ''out'' ''de'') =
     Inr [[(''id'', Num 7), (''text'', Str ''hi''), (''text_translated'', Str ''de:hi'')]]"
    by code_simp
  have bad: "snd (translate_dataframe demo_provider df_nan 2 ''out'' ''de'') = Inl TypeError"
    by code_simp
  from translate_dataframe_persists [of demo_provider "[tweet 7 ''hi'']" 1 "''out''" "''de''"] ok
  have w: "filter is_to_csv (fst (translate_dataframe demo_provider [tweet 7 ''hi''] 1 ''out'' ''de'')) =
     [To_csv ''out/df_translated.csv''
        [[(''id'', Num 7), (''text'', Str ''hi''), (''text_translated'', Str ''de:hi'')]]]"
    by (simp add: p)
  from translate_dataframe_persists [of demo_provider df_nan 2 "''out''" "''de''"] bad
  have n: "filter is_to_csv (fst (translate_dataframe demo_provider df_nan 2 ''out'' ''de'')) = []"
    by simp
  from ok w bad n show ?thesis by (simp only: simp_thms)
qed

lemma translate_text_no_log_info: "filter is_log_info (fst (translate_text P tx lang)) = []"
  by (simp add: translate_text_def slice30_def split: sum.splits cell.splits)

lemma translate_text_steps:
  "translate_text P tx lang = (es, Inr t) \<Longrightarrow>
     filter (\<lambda>e. is_provider_call e \<or> is_log_info e) es = [Provider_call tx lang]"
  by (auto simp: translate_text_def slice30_def split: sum.splits cell.splits)

lemma row_ok_Cons:
  "map_of r ''text'' = Some tx \<Longrightarrow> translate_text P tx lang = (es, Inr t) \<Longrightarrow> row_ok P lang r"
  "map_of r ''text'' = Some tx \<Longrightarrow> translate_text P tx lang = (es, Inl err) \<Longrightarrow> \<not> row_ok P lang r"
  "map_of r ''text'' = None \<Longrightarrow> \<not> row_ok P lang r"
  by (simp_all add: row_ok_def row_result_def)

lemma segment_loop_log_info:
  "filter is_log_info (fst (segment_loop P th lang rows acc c)) =
     map (\<lambda>j. Log_info (progress_message th j))
       (filter (\<lambda>j. j mod checkpoint_interval = 0) [Suc c..<Suc (c + processed P lang rows)])"
proof (induction rows arbitrary: acc c)
  case Nil
  show ?case by (simp add: processed_def)
next
  case (Cons r rows)
  show ?case
  proof (cases "map_of r ''text''")
    case None
    then show ?thesis by (simp add: processed_def row_ok_Cons)
  next
    case (Some tx)
    obtain es res where tt: "translate_text P tx lang = (es, res)"
      by (cases "translate_text P tx lang")
    from translate_text_no_log_info [of P tx lang] tt have es: "filter is_log_info es = []" by simp
    show ?thesis
    proof (cases res)
      case (Inl err)
      with Some tt have "\<not> row_ok P lang r" by (simp add: row_ok_Cons)
      with Some tt es Inl show ?thesis by (simp add: processed_def)
    next
      case (Inr t)
      with Some tt have ok: "row_ok P lang r" by (simp add: row_ok_Cons)
      then have p: "processed P lang (r # rows) = Suc (processed P lang rows)"
        by (simp add: processed_def)
      have u: "[Suc c..<Suc (c + Suc (processed P lang rows))]
                 = Suc c # [Suc (Suc c)..<Suc (Suc c + processed P lang rows)]"
        by (simp add: upt_conv_Cons)
      from Some tt es Inr Cons.IH [of "acc @ [t]" "Suc c"] show ?thesis
        unfolding p u by (auto simp: Let_def split: prod.splits)
    qed
  qed
qed

lemma segment_loop_steps:
  "snd (segment_loop P th lang rows acc c) = Inr ts \<Longrightarrow>
   filter (\<lambda>e. is_provider_call e \<or> is_log_info e) (fst (segment_loop P th lang rows acc c)) =
     concat (map (row_steps th lang) (enumerate c rows))"
proof (induction rows arbitrary: acc c)
  case Nil
  show ?case by simp
next
  case (Cons r rows)
  show ?case
  proof (cases "map_of r ''text''")
    case None
    with Cons.prems show ?thesis by simp
  next
    case (Some tx)
    obtain es res where tt: "translate_text P tx lang = (es, res)"
      by (cases "translate_text P tx lang")
    show ?thesis
    proof (cases res)
      case (Inl err)
      with Some tt Cons.prems show ?thesis by simp
    next
      case (Inr t)
      from tt Inr have es: "filter (\<lambda>e. is_provider_call e \<or> is_log_info e) es = [Provider_call tx lang]"
        by (simp add: translate_text_steps)
      from Some tt Inr Cons.prems
      have "snd (segment_loop P th lang rows (acc @ [t]) (Suc c)) = Inr ts"
        by (auto simp: Let_def split: prod.splits)
      from Cons.IH [OF this] Some tt Inr es show ?thesis
        by (auto simp: Let_def row_steps_def checkpoint_interval_def split: prod.splits)
    qed
  qed
qed

lemma translate_rows_processed:
  "translate_rows P lang rows = Inr out \<Longrightarrow> processed P lang rows = length rows"
proof (induction rows arbitrary: out)
  case Nil
  show ?case by (simp add: processed_def)
next
  case (Cons r rows)
  from Cons.prems obtain t out' where "row_result P lang r = Inr t"
    and "translate_rows P lang rows = Inr out'"
    by (auto split: sum.splits)
  with Cons.IH [of out'] show ?case by (simp add: processed_def row_ok_def)
qed

lemma segment_events:
  "fst (translate_dataframe_segment P seg th sp lang) = fst (segment_loop P th lang seg [] 0)"
  by (simp add: translate_dataframe_segment_def split: prod.splits sum.splits)

lemma segment_returns_loop:
  "snd (translate_dataframe_segment P seg th sp lang) = Inr out \<Longrightarrow>
     \<exists>ts. snd (segment_loop P th lang seg [] 0) = Inr ts"
  by (auto simp: translate_dataframe_segment_def split: prod.splits sum.splits)

section \<open>Progress notifications (C5)\<close>

text \<open>
  Claim C5 as stated fails on the code: there is no checkpoint interval to supply. With an
  interval of 3 the claim asks for a notification after the third row of a three-row
  segment; the code gives none.
\<close>

theorem translate_dataframe_segment_interval_fixed:
  "filter is_log_info (fst (translate_dataframe_segment demo_provider df3 ''Thread_1'' ''p'' ''de''))
     \<noteq> expected_progress 3 ''Thread_1'' (length df3) \<and>
   filter is_log_info (fst (translate_dataframe_segment demo_provider df3 ''Thread_1'' ''p'' ''de'')) = [] \<and>
   expected_progress 3 ''Thread_1'' (length df3) = [Log_info ''Thread_1: Translated 3 tweets'']"
  by code_simp

text \<open>
  Claim C5 as amended. The interval is the constant 5 of the code. The info records that a
  segment's worker logs are exactly the progress messages for the counts 5, 10, ... up to the
  number of rows it processed, in that order, under the worker's label. When the worker
  returns it has processed every row, and its provider calls and notifications interleave
  as follows: the call for row \<open>k\<close> (counting from 1), followed at once by the notification
  with count \<open>k\<close> when \<open>k\<close> is a multiple of 5. The result of the worker is that of the
  plain row-by-row translation, in which no counter or label occurs.
\<close>

theorem translate_dataframe_segment_progress:
  "filter is_log_info (fst (translate_dataframe_segment P seg th sp lang)) =
     expected_progress 5 th (processed P lang seg) \<and>
   (\<forall>out. snd (translate_dataframe_segment P seg th sp lang) = Inr out \<longrightarrow>
      processed P lang seg = length seg \<and>
      filter (\<lambda>e. is_provider_call e \<or> is_log_info e)
          (fst (translate_dataframe_segment P seg th sp lang)) =
        concat (map (row_steps th lang) (enumerate 0 seg))) \<and>
   snd (translate_dataframe_segment P seg th sp lang) = translate_rows P lang seg"
proof -
  have info: "filter is_log_info (fst (translate_dataframe_segment P seg th sp lang)) =
     expected_progress 5 th (processed P lang seg)"
    unfolding segment_events segment_loop_log_info
    by (simp add: expected_progress_def checkpoint_interval_def)
  have steps: "processed P lang seg = length seg \<and>
      filter (\<lambda>e. is_provider_call e \<or> is_log_info e)
          (fst (translate_dataframe_segment P seg th sp lang)) =
        concat (map (row_steps th lang) (enumerate 0 seg))"
    if r: "snd (translate_dataframe_segment P seg th sp lang) = Inr out" for out
  proof -
    from r have "translate_rows P lang seg = Inr out" by (simp only: segment_result)
    then have "processed P lang seg = length seg" by (rule translate_rows_processed)
    moreover from segment_returns_loop [OF r] obtain ts
      where "snd (segment_loop P th lang seg [] 0) = Inr ts" ..
    then have "filter (\<lambda>e. is_provider_call e \<or> is_log_info e)
          (fst (translate_dataframe_segment P seg th sp lang)) =
        concat (map (row_steps th lang) (enumerate 0 seg))"
      unfolding segment_events by (rule segment_loop_steps)
    ultimately show ?thesis by simp
  qed
  from info steps segment_result [of P seg th sp lang] show ?thesis by blast
qed

text \<open>Eleven rows: notifications after the fifth and the tenth.\<close>

theorem translate_dataframe_segment_progress_witness:
  "(\<exists>out. snd (translate_dataframe_segment demo_provider df11 ''Thread_2'' ''p'' ''de'') = Inr out) \<and>
   processed demo_provider ''de'' df11 = 11 \<and>
   filter is_log_info (fst (translate_dataframe_segment demo_provider df11 ''Thread_2'' ''p'' ''de'')) =
     [Log_info ''Thread_2: Translated 5 tweets'', Log_info ''Thread_2: Translated 10 tweets'']"
proof -
  have v: "valid_segment df11" by code_simp
  have r: "\<exists>out. snd (translate_dataframe_segment demo_provider df11 ''Thread_2'' ''p'' ''de'') = Inr out"
    unfolding segment_result
    using valid_segment_rows [OF v] by (rule translate_rows_total)
  have l: "length df11 = 11" by (simp add: df11_def)
  have e: "expected_progress 5 ''Thread_2'' 11 =
     [Log_info ''Thread_2: Translated 5 tweets'', Log_info ''Thread_2: Translated 10 tweets'']"
    by code_simp
  from translate_dataframe_segment_progress [of demo_provider df11 "''Thread_2''" "''p''" "''de''"] r l
  have p: "processed demo_provider ''de'' df11 = 11" by auto
  from translate_dataframe_segment_progress [of demo_provider df11 "''Thread_2''" "''p''" "''de''"] p e
  have "filter is_log_info (fst (translate_dataframe_segment demo_provider df11 ''Thread_2'' ''p'' ''de'')) =
     [Log_info ''Thread_2: Translated 5 tweets'', Log_info ''Thread_2: Translated 10 tweets'']"
    by simp
  with r p show ?thesis by (simp only: simp_thms)
qed

end
